theory Spec2Isabelle
  imports Complex_Main "HOL-Library.Char_ord" "HOL-Library.List_Lexorder"
    "HOL-Library.Option_ord"
begin

section \<open>FinanceRAG: the task pipeline of \<open>financerag/tasks/BaseTask.py\<close>\<close>

text \<open>
  A shallow embedding of \<open>BaseTask\<close>: the staged pipeline (\<open>generate\<close> and
  \<open>prepare_generation_inputs\<close>), the keyword cache, the fusion retrieval
  \<open>hybrid_retrieve_rerank\<close> and the metric aggregation \<open>evaluate\<close>.

  Conventions.
  \<^item> A Python \<open>dict\<close> is an association list in insertion order; \<open>d[k] = v\<close> is
    \<open>dict_set\<close>, which keeps the position of a key already present.
  \<^item> A Python exception raised by the modelled code is a value of \<open>error\<close>, returned
    as \<open>Inl\<close>.
  \<^item> A Python \<open>float\<close> is an exact rational, and \<open>round(x, 5)\<close>, which rounds the
    double, is a parameter: no claim below is about rounding error.
  \<^item> Third-party libraries are parameters: the search index and the chat model
    (\<open>services\<close>), and \<open>pytrec_eval\<close> (\<open>evaluator\<close>).
  \<^item> Calls of \<open>logger\<close> and the \<open>tqdm\<close> progress wrappers have no effect on any result
    and are left out.
\<close>

subsection \<open>Exceptions and dictionaries\<close>

datatype error =
  TypeError | ValueError | AssertionError | KeyError | ZeroDivisionError | AttributeError

type_synonym ('k, 'v) dict = "('k \<times> 'v) list"

definition keys :: "('k, 'v) dict \<Rightarrow> 'k list" where
  "keys d = map fst d"

text \<open>\<open>d[k]\<close>: the value stored under \<open>k\<close>, or \<open>KeyError\<close>.\<close>

definition dict_get :: "('k, 'v) dict \<Rightarrow> 'k \<Rightarrow> error + 'v" where
  "dict_get d k = (case map_of d k of None \<Rightarrow> Inl KeyError | Some v \<Rightarrow> Inr v)"

text \<open>\<open>d[k] = v\<close>: a key already present keeps its place and gets the new value, a new
  key goes to the end.\<close>

fun dict_set :: "('k, 'v) dict \<Rightarrow> 'k \<Rightarrow> 'v \<Rightarrow> ('k, 'v) dict" where
  "dict_set [] k v = [(k, v)]"
| "dict_set ((k', v') # d) k v =
     (if k' = k then (k, v) # d else (k', v') # dict_set d k v)"

text \<open>\<open>d.pop(k)\<close> for a key that is present (the value popped is not used by the code).\<close>

definition dict_pop :: "('k, 'v) dict \<Rightarrow> 'k \<Rightarrow> ('k, 'v) dict" where
  "dict_pop d k = filter (\<lambda>kv. fst kv \<noteq> k) d"

text \<open>A dict comprehension \<open>{k: v for k, v in pairs}\<close>.\<close>

definition dict_of_pairs :: "('k \<times> 'v) list \<Rightarrow> ('k, 'v) dict" where
  "dict_of_pairs ps = foldl (\<lambda>d kv. dict_set d (fst kv) (snd kv)) [] ps"

subsection \<open>The task object\<close>

text \<open>A corpus entry \<open>{"title": ..., "text": ...}\<close>.\<close>

record doc =
  doc_title :: string
  doc_text :: string

text \<open>\<open>Dict[str, Dict[str, float]]\<close>: query id to document id to score.\<close>

type_synonym ranking = "(string, (string, rat) dict) dict"

text \<open>The attributes of \<open>BaseTask\<close> that the pipeline stages read and write; \<open>None\<close> is
  Python's \<open>None\<close>.\<close>

record task =
  queries :: "(string, string) dict option"
  corpus :: "(string, doc) dict option"
  retrieve_results :: "ranking option"
  rerank_results :: "ranking option"
  generate_results :: "(string, string) dict option"

text \<open>One chat message \<open>{"role": r, "content": c}\<close>.\<close>

datatype message = Message string string

text \<open>The \<open>model\<close> argument of \<open>generate\<close>: whether its type is a subclass of
  \<open>Generator\<close>, and its \<open>generation\<close> method (an external collaborator, which may
  raise).\<close>

record gen_model =
  is_generator :: bool
  generation :: "(string, message list) dict \<Rightarrow> error + (string, string) dict"

subsection \<open>\<open>generate\<close> and \<open>prepare_generation_inputs\<close>\<close>

text \<open>\<open>max(documents, key=lambda x: x[1])\<close>: the first element with the largest key;
  \<open>ValueError\<close> on an empty list.\<close>

definition max_by_score :: "('a \<times> rat) list \<Rightarrow> error + ('a \<times> rat)" where
  "max_by_score documents =
     (case documents of
        [] \<Rightarrow> Inl ValueError
      | d # ds \<Rightarrow> Inr (foldl (\<lambda>best x. if snd best < snd x then x else best) d ds))"

text \<open>The default message builder of \<open>generate\<close>. \<open>py_str\<close> stands for Python's built-in
  \<open>str\<close> on the corpus entry, which the f-string applies.\<close>

definition default_messages ::
  "(doc \<Rightarrow> string) \<Rightarrow> string \<Rightarrow> (doc \<times> rat) list \<Rightarrow> error + message list" where
  "default_messages py_str query documents =
     (case max_by_score documents of
        Inl e \<Rightarrow> Inl e
      | Inr best \<Rightarrow>
          (let first_document = fst best in
           Inr [Message ''system'' ''You are a helpful assistant.'',
                Message ''user''
                  (''Document: '' @ py_str first_document
                   @ [CHR 0x0A] @ ''Generate an answer to the question from the document.''
                   @ [CHR 0x0A] @ ''Question: '' @ query)]))"

text \<open>The list comprehension \<open>[(self.corpus[doc_id], score) for doc_id, score in
  result.items()]\<close>; a document id that is not in the corpus raises \<open>KeyError\<close>.\<close>

fun lookup_documents ::
  "(string, doc) dict \<Rightarrow> (string, rat) dict \<Rightarrow> error + (doc \<times> rat) list" where
  "lookup_documents c [] = Inr []"
| "lookup_documents c ((doc_id, score) # rest) =
     (case dict_get c doc_id of
        Inl e \<Rightarrow> Inl e
      | Inr d \<Rightarrow>
          (case lookup_documents c rest of
             Inl e \<Rightarrow> Inl e
           | Inr ds \<Rightarrow> Inr ((d, score) # ds)))"

text \<open>The loop of \<open>prepare_generation_inputs\<close> over \<open>results.items()\<close>, with the
  dictionary \<open>messages_dict\<close> built so far.\<close>

fun prepare_loop ::
  "(string, string) dict \<Rightarrow> (string, doc) dict
   \<Rightarrow> (string \<Rightarrow> (doc \<times> rat) list \<Rightarrow> error + message list)
   \<Rightarrow> ranking \<Rightarrow> (string, message list) dict \<Rightarrow> error + (string, message list) dict" where
  "prepare_loop qs c prepare_messages [] messages_dict = Inr messages_dict"
| "prepare_loop qs c prepare_messages ((query_id, result) # rest) messages_dict =
     (case dict_get qs query_id of
        Inl e \<Rightarrow> Inl e
      | Inr query \<Rightarrow>
          (case lookup_documents c result of
             Inl e \<Rightarrow> Inl e
           | Inr documents \<Rightarrow>
               (case prepare_messages query documents of
                  Inl e \<Rightarrow> Inl e
                | Inr messages \<Rightarrow>
                    prepare_loop qs c prepare_messages rest
                      (dict_set messages_dict query_id messages))))"

definition prepare_generation_inputs ::
  "task \<Rightarrow> ranking \<Rightarrow> (string \<Rightarrow> (doc \<times> rat) list \<Rightarrow> error + message list)
   \<Rightarrow> error + (string, message list) dict" where
  "prepare_generation_inputs t results prepare_messages =
     (case (corpus t, queries t) of
        (Some c, Some qs) \<Rightarrow> prepare_loop qs c prepare_messages results []
      | _ \<Rightarrow> Inl ValueError)"

text \<open>\<open>generate(model, results, prepare_messages)\<close>. The result is what the call returns
  or raises, together with the task object after the call. The input used when
  \<open>results\<close> is omitted is the conditional expression of the source, as written:
  \<open>self.rerank_results if self.rerank_results is None else self.retrieve_results\<close>.\<close>

definition generate ::
  "(doc \<Rightarrow> string) \<Rightarrow> gen_model \<Rightarrow> ranking option
   \<Rightarrow> (string \<Rightarrow> (doc \<times> rat) list \<Rightarrow> error + message list) option
   \<Rightarrow> task \<Rightarrow> (error + (string, string) dict) \<times> task" where
  "generate py_str model results prepare_messages t =
     (if \<not> is_generator model then (Inl TypeError, t)
      else
        (let prepare = (case prepare_messages of
                          None \<Rightarrow> default_messages py_str
                        | Some f \<Rightarrow> f);
             resolved = (case results of
                           Some r \<Rightarrow> Some r
                         | None \<Rightarrow>
                             (if rerank_results t = None then rerank_results t
                              else retrieve_results t))
         in case resolved of
              None \<Rightarrow> (Inl AssertionError, t)
            | Some r \<Rightarrow>
                (case prepare_generation_inputs t r prepare of
                   Inl e \<Rightarrow> (Inl e, t)
                 | Inr messages_dict \<Rightarrow>
                     (case generation model messages_dict of
                        Inl e \<Rightarrow> (Inl e, t)
                      | Inr g \<Rightarrow> (Inr g, t\<lparr>generate_results := Some g\<rparr>)))))"

text \<open>The sibling selection in \<open>save_results\<close>:
  \<open>self.rerank_results if self.rerank_results is not None else self.retrieve_results\<close>.\<close>

definition final_result :: "task \<Rightarrow> ranking option" where
  "final_result t =
     (if rerank_results t \<noteq> None then rerank_results t else retrieve_results t)"

subsection \<open>\<open>evaluate\<close>\<close>

text \<open>Relevance judgments \<open>Dict[str, Dict[str, int]]\<close>.\<close>

type_synonym qrels = "(string, (string, int) dict) dict"

text \<open>The four measures requested from \<open>pytrec_eval\<close>: \<open>ndcg_cut\<close>, \<open>map_cut\<close>,
  \<open>recall\<close> and \<open>P\<close>, each at a cutoff \<open>k\<close>.\<close>

datatype measure = NDCG | MAP | Recall | Precision

text \<open>The dictionary \<open>scores\<close>: for each query the library scored, the value of every
  measure it was asked for (\<open>scores[query_id]["ndcg_cut_" + str(k)]\<close> and its like).\<close>

type_synonym scores = "(string, measure \<Rightarrow> int \<Rightarrow> rat) dict"

text \<open>\<open>pytrec_eval\<close> is a third-party library, so lines 644 to 646 are a parameter:
  \<open>pytrec_eval.RelevanceEvaluator(qrels, measures).evaluate(run)\<close>, with the measure
  strings built from \<open>k_values\<close>, gives the scores or raises (the library refuses some
  lists of cutoffs with \<open>ValueError\<close>, and it decides which queries of the run it
  scores).\<close>

type_synonym evaluator = "qrels \<Rightarrow> int list \<Rightarrow> ranking \<Rightarrow> error + scores"

text \<open>One of the dictionaries \<open>ndcg\<close>, \<open>_map\<close>, \<open>recall\<close>, \<open>precision\<close>. The key
  \<open>k\<close> stands for the label made of the measure's name (\<open>NDCG\<close>, \<open>MAP\<close>, \<open>Recall\<close>,
  \<open>P\<close>), an at sign and \<open>k\<close>.\<close>

type_synonym table = "(int, rat) dict"

text \<open>\<open>d[k] = f(d[k])\<close> for a key that is present, as every label is once the
  initialising loop has run.\<close>

definition dict_upd :: "('k, 'v) dict \<Rightarrow> 'k \<Rightarrow> ('v \<Rightarrow> 'v) \<Rightarrow> ('k, 'v) dict" where
  "dict_upd d k f = map (\<lambda>kv. if fst kv = k then (fst kv, f (snd kv)) else kv) d"

text \<open>The inner loop \<open>for pid in list(rels): if qid == pid: results[qid].pop(pid)\<close>,
  over the snapshot of the keys.\<close>

fun pop_identical :: "string \<Rightarrow> string list \<Rightarrow> (string, rat) dict \<Rightarrow> (string, rat) dict" where
  "pop_identical qid [] rels = rels"
| "pop_identical qid (pid # pids) rels =
     pop_identical qid pids (if qid = pid then dict_pop rels pid else rels)"

text \<open>The outer loop over \<open>results.items()\<close>: the caller's \<open>results\<close> after it.\<close>

definition remove_identical :: "ranking \<Rightarrow> ranking" where
  "remove_identical results =
     map (\<lambda>qrel. (fst qrel, pop_identical (fst qrel) (keys (snd qrel)) (snd qrel))) results"

text \<open>\<open>{qid: rels for qid, rels in results.items() if qid in qrels}\<close>.\<close>

definition filtered_results :: "qrels \<Rightarrow> ranking \<Rightarrow> ranking" where
  "filtered_results qr results =
     dict_of_pairs (filter (\<lambda>qrel. fst qrel \<in> set (keys qr)) results)"

text \<open>The three loops of \<open>evaluate\<close> for one of the four dictionaries (the source runs
  them for the four dictionaries side by side; no dictionary reads another):
  initialise every label to \<open>0.0\<close>, add every scored query's value, and divide by
  \<open>len(scores)\<close> with rounding. The parameter \<open>rnd\<close> is Python's \<open>round(x, 5)\<close> on
  floats.\<close>

definition init_table :: "int list \<Rightarrow> table" where
  "init_table k_values = foldl (\<lambda>d k. dict_set d k 0) [] k_values"

definition add_scores :: "measure \<Rightarrow> int list \<Rightarrow> scores \<Rightarrow> table \<Rightarrow> table" where
  "add_scores m k_values sc d0 =
     foldl (\<lambda>d q. foldl (\<lambda>d' k. dict_upd d' k (\<lambda>v. v + snd q m k)) d k_values) d0 sc"

definition average_table :: "(rat \<Rightarrow> rat) \<Rightarrow> int list \<Rightarrow> nat \<Rightarrow> table \<Rightarrow> error + table" where
  "average_table rnd k_values n d0 =
     (if k_values \<noteq> [] \<and> n = 0 then Inl ZeroDivisionError
      else Inr (foldl (\<lambda>d k. dict_upd d k (\<lambda>v. rnd (v / of_nat n))) d0 k_values))"

definition aggregate :: "(rat \<Rightarrow> rat) \<Rightarrow> measure \<Rightarrow> int list \<Rightarrow> scores \<Rightarrow> error + table" where
  "aggregate rnd m k_values sc =
     average_table rnd k_values (length sc) (add_scores m k_values sc (init_table k_values))"

text \<open>\<open>evaluate(qrels, results, k_values, ignore_identical_ids)\<close>: what the call returns
  or raises, and the caller's \<open>results\<close> dictionary after the call (the source pops
  entries from it in place). An exception of the library leaves the function before
  anything is aggregated.\<close>

definition evaluate ::
  "(rat \<Rightarrow> rat) \<Rightarrow> evaluator \<Rightarrow> qrels \<Rightarrow> ranking \<Rightarrow> int list \<Rightarrow> bool
   \<Rightarrow> (error + table \<times> table \<times> table \<times> table) \<times> ranking" where
  "evaluate rnd evaluator qr results k_values ignore_identical_ids =
     (let results' = (if ignore_identical_ids then remove_identical results else results)
      in (case evaluator qr k_values (filtered_results qr results') of
            Inl e \<Rightarrow> (Inl e, results')
          | Inr sc \<Rightarrow>
              (case aggregate rnd NDCG k_values sc of
                 Inl e \<Rightarrow> (Inl e, results')
               | Inr ndcg \<Rightarrow>
                   (case aggregate rnd MAP k_values sc of
                      Inl e \<Rightarrow> (Inl e, results')
                    | Inr map' \<Rightarrow>
                        (case aggregate rnd Recall k_values sc of
                           Inl e \<Rightarrow> (Inl e, results')
                         | Inr recall \<Rightarrow>
                             (case aggregate rnd Precision k_values sc of
                                Inl e \<Rightarrow> (Inl e, results')
                              | Inr precision \<Rightarrow>
                                  (Inr (ndcg, map', recall, precision), results')))))))"


subsection \<open>Data frames\<close>

text \<open>A value held in a cell of a pandas \<open>DataFrame\<close>: a float or a string. The order
  is the one \<open>sort_values\<close> uses within a column of floats or within a column of
  strings; columns obtained from the search index hold values of one kind.\<close>

datatype cell = Num rat | Str string

instantiation cell :: linorder
begin

fun less_eq_cell :: "cell \<Rightarrow> cell \<Rightarrow> bool" where
  "less_eq_cell (Num x) (Num y) = (x \<le> y)"
| "less_eq_cell (Num x) (Str t) = True"
| "less_eq_cell (Str s) (Num y) = False"
| "less_eq_cell (Str s) (Str t) = (s \<le> t)"

definition less_cell :: "cell \<Rightarrow> cell \<Rightarrow> bool" where
  "less_cell a b = (a \<le> b \<and> \<not> b \<le> a)"

instance
proof
  fix x y z :: cell
  show "(x < y) = (x \<le> y \<and> \<not> y \<le> x)" by (simp add: less_cell_def)
  show "x \<le> x" by (cases x) simp_all
  show "x \<le> y \<Longrightarrow> y \<le> z \<Longrightarrow> x \<le> z" by (cases x; cases y; cases z) auto
  show "x \<le> y \<Longrightarrow> y \<le> x \<Longrightarrow> x = y" by (cases x; cases y) auto
  show "x \<le> y \<or> y \<le> x" by (cases x; cases y) auto
qed

end

text \<open>A row gives the cell of each column; \<open>None\<close> is a missing value (\<open>NaN\<close>). A frame
  is its column labels and its rows. Only the cells of a frame's own columns are ever
  read.\<close>

type_synonym row = "string \<Rightarrow> cell option"

record frame =
  columns :: "string list"
  rows :: "row list"

text \<open>\<open>pandas.DataFrame()\<close>, \<open>df.empty\<close> (some axis has length zero), and the row of a
  frame as its own columns show it.\<close>

definition empty_frame :: frame where
  "empty_frame = \<lparr>columns = [], rows = []\<rparr>"

definition is_empty :: "frame \<Rightarrow> bool" where
  "is_empty df = (columns df = [] \<or> rows df = [])"

definition row_in :: "frame \<Rightarrow> row \<Rightarrow> row" where
  "row_in df r = (\<lambda>c. if c \<in> set (columns df) then r c else None)"

text \<open>\<open>df.rename(columns={old: new}, inplace=True)\<close>.\<close>

definition rename_column :: "string \<Rightarrow> string \<Rightarrow> frame \<Rightarrow> frame" where
  "rename_column old new df =
     \<lparr>columns = map (\<lambda>c. if c = old then new else c) (columns df),
      rows = map (\<lambda>r c. if c = new then r old else if c = old then None else r c) (rows df)\<rparr>"

text \<open>\<open>_rename_score_column(df, new_name)\<close>: the frame after the call and the value
  returned, or the \<open>ValueError\<close> raised.\<close>

definition rename_score_column :: "frame \<Rightarrow> string \<Rightarrow> error + frame \<times> bool" where
  "rename_score_column df new_name =
     (if new_name \<in> set (columns df) \<or> length (rows df) = 0 then Inr (df, False)
      else if ''_score'' \<in> set (columns df)
        then Inr (rename_column ''_score'' new_name df, True)
      else if ''_relevance_score'' \<in> set (columns df)
        then Inr (rename_column ''_relevance_score'' new_name df, True)
      else Inl ValueError)"

text \<open>\<open>pandas.concat([a, b], ignore_index=True)\<close>: the columns of \<open>a\<close>, then those of
  \<open>b\<close> that \<open>a\<close> lacks; the rows of \<open>a\<close>, then those of \<open>b\<close>; a cell of a column that
  the row's own frame lacks is missing.\<close>

definition concat_frames :: "frame \<Rightarrow> frame \<Rightarrow> frame" where
  "concat_frames a b =
     \<lparr>columns = columns a @ filter (\<lambda>c. c \<notin> set (columns a)) (columns b),
      rows = map (row_in a) (rows a) @ map (row_in b) (rows b)\<rparr>"

text \<open>The rows kept by \<open>keep='first'\<close>: a row is dropped when its key has been seen.\<close>

fun keep_first :: "('a \<Rightarrow> 'k) \<Rightarrow> 'k list \<Rightarrow> 'a list \<Rightarrow> 'a list" where
  "keep_first key seen [] = []"
| "keep_first key seen (x # xs) =
     (if key x \<in> set seen then keep_first key seen xs
      else x # keep_first key (key x # seen) xs)"

text \<open>\<open>df.drop_duplicates(subset=['doc_id'], keep='first', inplace=True)\<close>; a frame
  with no such column raises \<open>KeyError\<close>.\<close>

definition drop_duplicates :: "frame \<Rightarrow> error + frame" where
  "drop_duplicates df =
     (if ''doc_id'' \<notin> set (columns df) then Inl KeyError
      else Inr (df\<lparr>rows := keep_first (\<lambda>r. r ''doc_id'') [] (rows df)\<rparr>))"

text \<open>\<open>df.dropna(inplace=True)\<close>: a row stays when none of its cells is missing.\<close>

definition complete_row :: "frame \<Rightarrow> row \<Rightarrow> bool" where
  "complete_row df r = (\<forall>c \<in> set (columns df). r c \<noteq> None)"

definition dropna :: "frame \<Rightarrow> frame" where
  "dropna df = df\<lparr>rows := filter (complete_row df) (rows df)\<rparr>"

text \<open>\<open>df.sort_values(by='score', ascending=False).reset_index(drop=True)\<close>: rows by
  descending score, a missing score last. A frame with no such column raises
  \<open>KeyError\<close>. The order among rows of equal score is not fixed by pandas: its default
  sort is not stable, and the order depends on the sorting routine of the installed
  numerical library. The model puts rows of equal score in their given order; no
  theorem below says anything about the order among rows of equal score.\<close>

definition sort_values :: "frame \<Rightarrow> error + frame" where
  "sort_values df =
     (if ''score'' \<notin> set (columns df) then Inl KeyError
      else Inr (df\<lparr>rows := rev (sort_key (\<lambda>r. r ''score'') (rev (rows df)))\<rparr>))"

text \<open>\<open>zip(df['doc_id'], df['score'])\<close>. It is used after \<open>dropna\<close>, when no cell of a
  row is missing.\<close>

definition row_pairs :: "row list \<Rightarrow> (cell \<times> cell) list" where
  "row_pairs rs =
     concat (map (\<lambda>r. case (r ''doc_id'', r ''score'') of
                         (Some d, Some sc) \<Rightarrow> [(d, sc)]
                       | _ \<Rightarrow> []) rs)"

definition id_score_pairs :: "frame \<Rightarrow> error + (cell \<times> cell) list" where
  "id_score_pairs df =
     (if ''doc_id'' \<notin> set (columns df) \<or> ''score'' \<notin> set (columns df) then Inl KeyError
      else Inr (row_pairs (rows df)))"

subsection \<open>Collaborators, call log and keyword cache\<close>

text \<open>The external services, as functions of an abstract state \<open>'w\<close> of the outside
  world; \<open>None\<close> means the call raised an exception (every use is inside
  \<open>try ... except Exception\<close>).
  \<^item> \<open>chat query\<close> is \<open>self.client.chat.completions.create(...).choices[0].message.content\<close>
    for the prompt built from \<open>query\<close>;
  \<^item> \<open>search query_type query top_k\<close> is
    \<open>self.hybrid_retriever.search(query=query, query_type=query_type)
      .rerank(reranker=self.reranker).limit(top_k).to_pandas()\<close>.\<close>

datatype query_type = FTS | Hybrid | Vector

record 'w services =
  chat :: "string \<Rightarrow> 'w \<Rightarrow> string option \<times> 'w"
  search :: "query_type \<Rightarrow> string \<Rightarrow> int \<Rightarrow> 'w \<Rightarrow> frame option \<times> 'w"

datatype call = Chat string | Search query_type string int

text \<open>What the retrieval threads through its calls: the outside world, the log of the
  collaborator calls made so far, and the \<open>lru_cache\<close> of
  \<open>keyword_extraction_expansion\<close> (most recently used entry first; one task object,
  one positional argument, so the key is the query text).\<close>

record 'w env =
  world :: 'w
  calls :: "call list"
  cache :: "(string, string list) dict"

definition call_chat :: "'w services \<Rightarrow> string \<Rightarrow> 'w env \<Rightarrow> string option \<times> 'w env" where
  "call_chat svc query s =
     (case chat svc query (world s) of
        (r, w) \<Rightarrow> (r, s\<lparr>world := w, calls := calls s @ [Chat query]\<rparr>))"

definition call_search ::
  "'w services \<Rightarrow> query_type \<Rightarrow> string \<Rightarrow> int \<Rightarrow> 'w env \<Rightarrow> frame option \<times> 'w env" where
  "call_search svc qt query top_k s =
     (case search svc qt query top_k (world s) of
        (r, w) \<Rightarrow> (r, s\<lparr>world := w, calls := calls s @ [Search qt query top_k]\<rparr>))"

text \<open>\<open>response.split(', ')\<close> and \<open>"; ".join(keywords)\<close>.\<close>

fun split_comma :: "string \<Rightarrow> string \<Rightarrow> string list" where
  "split_comma cur [] = [cur]"
| "split_comma cur [c] = [cur @ [c]]"
| "split_comma cur (c # d # cs) =
     (if c = CHR '','' \<and> d = CHR '' '' then cur # split_comma [] cs
      else split_comma (cur @ [c]) (d # cs))"

fun join_semicolon :: "string list \<Rightarrow> string" where
  "join_semicolon [] = []"
| "join_semicolon [x] = x"
| "join_semicolon (x # y # ys) = x @ ''; '' @ join_semicolon (y # ys)"

text \<open>\<open>@lru_cache(maxsize=1000)\<close> around \<open>keyword_extraction_expansion\<close>: a hit returns
  the stored list and makes the entry the most recent one; a miss runs the body, and a
  value it returns is stored, the least recently used entry leaving a full cache; an
  exception is not stored.\<close>

definition maxsize :: nat where
  "maxsize = 1000"

definition keyword_extraction_expansion ::
  "'w services \<Rightarrow> string \<Rightarrow> 'w env \<Rightarrow> string list option \<times> 'w env" where
  "keyword_extraction_expansion svc query s =
     (case map_of (cache s) query of
        Some keywords \<Rightarrow>
          (Some keywords, s\<lparr>cache := (query, keywords) # dict_pop (cache s) query\<rparr>)
      | None \<Rightarrow>
          (case call_chat svc query s of
             (None, s1) \<Rightarrow> (None, s1)
           | (Some response, s1) \<Rightarrow>
               (let keywords = split_comma [] response
                in (Some keywords,
                    s1\<lparr>cache := take maxsize ((query, keywords) # cache s1)\<rparr>))))"

subsection \<open>\<open>hybrid_retrieve_rerank\<close>\<close>

text \<open>Step 1 of the loop body: the frame \<open>retrieved_docs_1\<close> after the first \<open>try\<close>.
  It is the empty default when the keyword expansion or the search raises; when
  \<open>_rename_score_column\<close> raises, the frame has been assigned already and stays as the
  search returned it.\<close>

definition fts_stage :: "'w services \<Rightarrow> int \<Rightarrow> string \<Rightarrow> 'w env \<Rightarrow> frame \<times> 'w env" where
  "fts_stage svc top_k query s =
     (case keyword_extraction_expansion svc query s of
        (None, s1) \<Rightarrow> (empty_frame, s1)
      | (Some keywords, s1) \<Rightarrow>
          (case call_search svc FTS (join_semicolon keywords) top_k s1 of
             (None, s2) \<Rightarrow> (empty_frame, s2)
           | (Some df, s2) \<Rightarrow>
               (case rename_score_column df ''score'' of
                  Inl e \<Rightarrow> (df, s2)
                | Inr renamed \<Rightarrow> (fst renamed, s2))))"

text \<open>Step 2: the hybrid search, and the vector search when it raises; \<open>None\<close> when
  both raise.\<close>

definition dense_stage ::
  "'w services \<Rightarrow> int \<Rightarrow> string \<Rightarrow> 'w env \<Rightarrow> frame option \<times> 'w env" where
  "dense_stage svc top_k query s =
     (case call_search svc Hybrid query top_k s of
        (Some df, s1) \<Rightarrow> (Some df, s1)
      | (None, s1) \<Rightarrow> call_search svc Vector query top_k s1)"

text \<open>The fusion: \<open>if not retrieved_docs_1.empty:\<close> concatenate, lexical list first,
  and drop duplicates by document id.\<close>

definition fuse :: "frame \<Rightarrow> frame \<Rightarrow> error + frame" where
  "fuse docs1 docs =
     (if \<not> is_empty docs1 then drop_duplicates (concat_frames docs1 docs) else Inr docs)"

text \<open>The rest of the loop body: fusion, \<open>dropna\<close>, the score column renamed to
  \<open>score\<close>, the descending sort, and the dictionary of the query.\<close>

definition finalize :: "frame \<Rightarrow> frame \<Rightarrow> error + (cell, cell) dict" where
  "finalize docs1 docs =
     (case fuse docs1 docs of
        Inl e \<Rightarrow> Inl e
      | Inr fused \<Rightarrow>
          (case rename_score_column (dropna fused) ''score'' of
             Inl e \<Rightarrow> Inl e
           | Inr renamed \<Rightarrow>
               (case sort_values (fst renamed) of
                  Inl e \<Rightarrow> Inl e
                | Inr sorted_docs \<Rightarrow>
                    (case id_score_pairs sorted_docs of
                       Inl e \<Rightarrow> Inl e
                     | Inr pairs \<Rightarrow> Inr (dict_of_pairs pairs)))))"

text \<open>One pass of the loop body for a query that is not skipped: the value stored in
  \<open>results[q_id]\<close>, or the exception that leaves the function.\<close>

definition process_query ::
  "'w services \<Rightarrow> int \<Rightarrow> string \<Rightarrow> 'w env \<Rightarrow> (error + (cell, cell) dict) \<times> 'w env" where
  "process_query svc top_k query s =
     (case fts_stage svc top_k query s of
        (docs1, s1) \<Rightarrow>
          (case dense_stage svc top_k query s1 of
             (None, s2) \<Rightarrow> (Inr [], s2)
           | (Some docs, s2) \<Rightarrow> (finalize docs1 docs, s2)))"

text \<open>The test \<open>query_ids and q_id not in query_ids\<close>: \<open>None\<close> and an empty collection
  are both false in Python.\<close>

definition skipped :: "string list option \<Rightarrow> string \<Rightarrow> bool" where
  "skipped query_ids q_id =
     (case query_ids of None \<Rightarrow> False | Some ids \<Rightarrow> ids \<noteq> [] \<and> q_id \<notin> set ids)"

type_synonym retrieval = "(string, (cell, cell) dict) dict"

text \<open>The loop over \<open>self.queries.items()\<close>, with the dictionary \<open>results\<close> built so
  far.\<close>

fun retrieve_loop ::
  "'w services \<Rightarrow> int \<Rightarrow> string list option \<Rightarrow> (string, string) dict \<Rightarrow> retrieval
   \<Rightarrow> 'w env \<Rightarrow> (error + retrieval) \<times> 'w env" where
  "retrieve_loop svc top_k query_ids [] results s = (Inr results, s)"
| "retrieve_loop svc top_k query_ids ((q_id, query) # rest) results s =
     (if skipped query_ids q_id then retrieve_loop svc top_k query_ids rest results s
      else
        (case process_query svc top_k query s of
           (Inl e, s1) \<Rightarrow> (Inl e, s1)
         | (Inr entry, s1) \<Rightarrow>
             retrieve_loop svc top_k query_ids rest (dict_set results q_id entry) s1))"

text \<open>\<open>hybrid_retrieve_rerank(top_k, query_ids)\<close>. The arguments \<open>alpha\<close> and \<open>kwargs\<close>
  are not used by the source. There is no check of \<open>top_k\<close>.\<close>

definition hybrid_retrieve_rerank ::
  "'w services \<Rightarrow> task \<Rightarrow> int \<Rightarrow> string list option \<Rightarrow> 'w env
   \<Rightarrow> (error + retrieval) \<times> 'w env" where
  "hybrid_retrieve_rerank svc t top_k query_ids s =
     (case queries t of
        None \<Rightarrow> (Inl AttributeError, s)
      | Some qs \<Rightarrow> retrieve_loop svc top_k query_ids qs [] s)"

text \<open>The document ids of a frame's rows, in order; and the score column that
  \<open>_rename_score_column(df, "score")\<close> settles on, in the order it looks for one.\<close>

definition doc_ids :: "frame \<Rightarrow> cell option list" where
  "doc_ids df = map (\<lambda>r. r ''doc_id'') (rows df)"

definition score_column :: "frame \<Rightarrow> string option" where
  "score_column df =
     (if ''score'' \<in> set (columns df) then Some ''score''
      else if ''_score'' \<in> set (columns df) then Some ''_score''
      else if ''_relevance_score'' \<in> set (columns df) then Some ''_relevance_score''
      else None)"

text \<open>Descending order of a list of scores, with and without ties.\<close>

definition descending :: "cell list \<Rightarrow> bool" where
  "descending xs = sorted_wrt (\<lambda>a b. b \<le> a) xs"

definition strictly_descending :: "cell list \<Rightarrow> bool" where
  "strictly_descending xs = sorted_wrt (\<lambda>a b. b < a) xs"

subsection \<open>Example objects\<close>

text \<open>A loaded task with one query and one document, a stored retrieve-stage result and
  no rerank-stage result; and the same task with a rerank-stage result as well.\<close>

definition example_doc :: doc where
  "example_doc = \<lparr>doc_title = ''T'', doc_text = ''body''\<rparr>"

definition task_retrieved :: task where
  "task_retrieved =
     \<lparr>queries = Some [(''q1'', ''what'')],
      corpus = Some [(''d1'', example_doc), (''d2'', example_doc)],
      retrieve_results = Some [(''q1'', [(''d1'', 9 / 10)])],
      rerank_results = None,
      generate_results = None\<rparr>"

definition task_reranked :: task where
  "task_reranked = task_retrieved\<lparr>rerank_results := Some [(''q1'', [(''d2'', 1 / 2)])]\<rparr>"

text \<open>A generator stub that answers every query with its own id.\<close>

definition echo_model :: gen_model where
  "echo_model =
     \<lparr>is_generator = True,
      generation = (\<lambda>messages_dict. Inr (map (\<lambda>kv. (fst kv, fst kv)) messages_dict))\<rparr>"

text \<open>Stand-ins for the library in the examples. The measure is the number of
  judged-relevant documents among the first \<open>k\<close> of the query. The evaluator refuses an
  empty list of cutoffs and a cutoff that is not positive, and scores the queries of
  the run that have a judgment. The rounding is to the nearest multiple of \<open>10^-5\<close> of
  the exact value, a tie to the even one; the examples round whole numbers only.\<close>

type_synonym metric = "measure \<Rightarrow> int \<Rightarrow> (string, int) dict \<Rightarrow> (string, rat) dict \<Rightarrow> rat"

definition hits_metric :: metric where
  "hits_metric m k judgments rels =
     of_nat (length (filter (\<lambda>d. case map_of judgments d of None \<Rightarrow> False | Some g \<Rightarrow> 0 < g)
                      (take (nat k) (keys rels))))"

definition pytrec_stub :: "metric \<Rightarrow> evaluator" where
  "pytrec_stub metric qr k_values run =
     (if k_values = [] \<or> list_ex (\<lambda>k. k \<le> 0) k_values then Inl ValueError
      else Inr (concat (map (\<lambda>qrel. case map_of qr (fst qrel) of
                                      None \<Rightarrow> []
                                    | Some judgments \<Rightarrow>
                                        (if judgments = [] then []
                                         else [(fst qrel,
                                                \<lambda>m k. metric m k judgments (snd qrel))]))
                  run)))"

definition round_half_even :: "rat \<Rightarrow> int" where
  "round_half_even x =
     (let f = floor x; d = x - of_int f
      in if d < 1 / 2 then f else if 1 / 2 < d then f + 1
         else if even f then f else f + 1)"

definition round5 :: "rat \<Rightarrow> rat" where
  "round5 x = of_int (round_half_even (x * 100000)) / 100000"

text \<open>Judgments and results: a self-match under \<open>q1\<close>, and a query \<open>q9\<close> that has no
  judgments; the scores the stand-in gives for them; and a single judged query with a
  single relevant document.\<close>

definition example_qrels :: qrels where
  "example_qrels = [(''q1'', [(''d1'', 1), (''d2'', 0)])]"

definition example_results :: ranking where
  "example_results =
     [(''q1'', [(''q1'', 1), (''d1'', 9 / 10), (''d2'', 8 / 10)]),
      (''q9'', [(''d1'', 1 / 2)])]"





text \<open>A start state with nothing cached and no call made, the world being the number
  of collaborator calls so far; and stub services: the chat model answers \<open>response\<close>,
  the index refuses a limit that is not positive and otherwise answers the
  full-text search with \<open>lexical\<close> and the other two with \<open>dense\<close> (\<open>None\<close>: the call
  raises).\<close>

definition env0 :: "nat env" where
  "env0 = \<lparr>world = 0, calls = [], cache = []\<rparr>"

definition stub_services :: "string option \<Rightarrow> frame option \<Rightarrow> frame option \<Rightarrow> nat services" where
  "stub_services response lexical dense =
     \<lparr>chat = (\<lambda>query w. (response, Suc w)),
      search = (\<lambda>qt query top_k w.
                 (if top_k \<le> 0 then None else if qt = FTS then lexical else dense, Suc w))\<rparr>"

text \<open>Frames as the index returns them: two documents of equal relevance; a lexical
  result for \<open>d1\<close>, after and before its score column is renamed; a frame with no
  score column; a frame whose second row has no
  score; a frame whose only row has no score.\<close>

definition tied_frame :: frame where
  "tied_frame =
     \<lparr>columns = [''doc_id'', ''_relevance_score''],
      rows = [map_of [(''doc_id'', Str ''d1''), (''_relevance_score'', Num (1 / 2))],
              map_of [(''doc_id'', Str ''d2''), (''_relevance_score'', Num (1 / 2))]]\<rparr>"

definition lexical_frame :: frame where
  "lexical_frame =
     \<lparr>columns = [''doc_id'', ''score''],
      rows = [map_of [(''doc_id'', Str ''d1''), (''score'', Num (9 / 10))]]\<rparr>"

definition lexical_raw_frame :: frame where
  "lexical_raw_frame =
     \<lparr>columns = [''doc_id'', ''_relevance_score''],
      rows = [map_of [(''doc_id'', Str ''d1''), (''_relevance_score'', Num (9 / 10))]]\<rparr>"

definition unscored_frame :: frame where
  "unscored_frame =
     \<lparr>columns = [''doc_id''], rows = [map_of [(''doc_id'', Str ''d1'')]]\<rparr>"

definition partial_frame :: frame where
  "partial_frame =
     \<lparr>columns = [''doc_id'', ''_relevance_score''],
      rows = [map_of [(''doc_id'', Str ''d1''), (''_relevance_score'', Num (1 / 2))],
              map_of [(''doc_id'', Str ''d2'')]]\<rparr>"

definition incomplete_frame :: frame where
  "incomplete_frame =
     \<lparr>columns = [''doc_id'', ''_relevance_score''], rows = [map_of [(''doc_id'', Str ''d2'')]]\<rparr>"

text \<open>A loaded task with two queries.\<close>

definition task_two :: task where
  "task_two = task_retrieved\<lparr>queries := Some [(''q1'', ''what''), (''q2'', ''why'')]\<rparr>"

section \<open>Theorems\<close>

subsection \<open>Unfolding the examples\<close>

lemmas ex_defs = env0_def stub_services_def tied_frame_def lexical_frame_def unscored_frame_def
  lexical_raw_frame_def
  partial_frame_def incomplete_frame_def task_retrieved_def task_two_def

lemmas run_defs = hybrid_retrieve_rerank_def process_query_def fts_stage_def dense_stage_def
  keyword_extraction_expansion_def call_chat_def call_search_def skipped_def Let_def

lemmas frame_defs = finalize_def fuse_def is_empty_def empty_frame_def dropna_def complete_row_def
  rename_score_column_def rename_column_def sort_values_def id_score_pairs_def row_pairs_def
  dict_of_pairs_def concat_frames_def drop_duplicates_def row_in_def

subsection \<open>The pipeline stages\<close>

text \<open>
  C1 (the input of \<open>generate\<close> when \<open>results\<close> is omitted: the rerank-stage result when
  one exists, otherwise the retrieve-stage result). The code does not do this. With a
  retrieve-stage result stored and no rerank-stage result, \<open>generate\<close> raises
  \<open>AssertionError\<close> and leaves the task unchanged, although \<open>save_results\<close> selects the
  retrieve-stage result from the same task; with both stored, \<open>generate\<close> answers from
  the retrieve-stage result (document \<open>d1\<close>), and the generated answers are those of
  calling it on the retrieve-stage result explicitly.
\<close>

theorem generate_omitted_results_inverted:
  "generate py_str echo_model None None task_retrieved = (Inl AssertionError, task_retrieved)
   \<and> final_result task_retrieved = retrieve_results task_retrieved
   \<and> generate py_str echo_model None None task_reranked
       = generate py_str echo_model (retrieve_results task_reranked) None task_reranked
   \<and> fst (generate py_str echo_model None None task_reranked) = Inr [(''q1'', ''q1'')]
   \<and> final_result task_reranked = rerank_results task_reranked"
  by (simp add: generate_def task_retrieved_def task_reranked_def echo_model_def
      final_result_def prepare_generation_inputs_def dict_get_def default_messages_def
      max_by_score_def Let_def)

subsection \<open>Dictionaries\<close>


lemma keys_dict_set: "set (keys (dict_set d k v)) = insert k (set (keys d))"
  by (induction d k v rule: dict_set.induct) (auto simp: keys_def)

lemma distinct_dict_set: "distinct (keys d) \<Longrightarrow> distinct (keys (dict_set d k v))"
proof (induction d k v rule: dict_set.induct)
  case (1 k v) then show ?case by (simp add: keys_def)
next
  case (2 k' v' d k v)
  have "set (keys (dict_set d k v)) = insert k (set (keys d))" by (rule keys_dict_set)
  with 2 show ?case by (auto simp: keys_def)
qed

lemma dict_set_fresh: "k \<notin> set (keys d) \<Longrightarrow> dict_set d k v = d @ [(k, v)]"
  by (induction d k v rule: dict_set.induct) (auto simp: keys_def)

lemma dict_of_pairs_aux:
  "distinct (keys (d @ ps)) \<Longrightarrow> foldl (\<lambda>d kv. dict_set d (fst kv) (snd kv)) d ps = d @ ps"
proof (induction ps arbitrary: d)
  case Nil then show ?case by simp
next
  case (Cons p ps)
  have "fst p \<notin> set (keys d)" using Cons.prems by (auto simp: keys_def)
  then have "dict_set d (fst p) (snd p) = d @ [p]" by (simp add: dict_set_fresh)
  moreover have "distinct (keys ((d @ [p]) @ ps))" using Cons.prems by simp
  ultimately show ?case using Cons.IH [of "d @ [p]"] by simp
qed

lemma dict_of_pairs_distinct: "distinct (keys ps) \<Longrightarrow> dict_of_pairs ps = ps"
  using dict_of_pairs_aux [of "[]" ps] by (simp add: dict_of_pairs_def)

lemma distinct_foldl_dict_set:
  "distinct (keys d) \<Longrightarrow> distinct (keys (foldl (\<lambda>d kv. dict_set d (fst kv) (snd kv)) d ps))"
  by (induction ps arbitrary: d) (auto simp: distinct_dict_set)

lemma distinct_dict_of_pairs: "distinct (keys (dict_of_pairs ps))"
  unfolding dict_of_pairs_def by (rule distinct_foldl_dict_set) (simp add: keys_def)

lemma set_dict_set: "set (dict_set d k v) \<subseteq> insert (k, v) (set d)"
  by (induction d k v rule: dict_set.induct) auto

lemma set_foldl_dict_set:
  "set (foldl (\<lambda>d kv. dict_set d (fst kv) (snd kv)) d ps) \<subseteq> set d \<union> set ps"
proof (induction ps arbitrary: d)
  case Nil then show ?case by simp
next
  case (Cons p ps)
  have "set (dict_set d (fst p) (snd p)) \<subseteq> insert p (set d)"
    using set_dict_set [of d "fst p" "snd p"] by simp
  with Cons [of "dict_set d (fst p) (snd p)"] show ?case by auto
qed

lemma set_dict_of_pairs: "set (dict_of_pairs ps) \<subseteq> set ps"
  using set_foldl_dict_set [of "[]" ps] by (simp add: dict_of_pairs_def)

lemma keys_foldl_dict_set:
  "set (keys (foldl (\<lambda>d kv. dict_set d (fst kv) (snd kv)) d ps)) = set (keys d) \<union> fst ` set ps"
  by (induction ps arbitrary: d) (auto simp: keys_dict_set)

lemma keys_dict_of_pairs: "set (keys (dict_of_pairs ps)) = fst ` set ps"
  using keys_foldl_dict_set [of "[]" ps] by (simp add: dict_of_pairs_def keys_def)

subsection \<open>The evaluation\<close>

lemmas eval_defs = evaluate_def filtered_results_def remove_identical_def dict_of_pairs_def
  pytrec_stub_def aggregate_def average_table_def add_scores_def init_table_def dict_upd_def
  keys_def dict_pop_def hits_metric_def round5_def round_half_even_def Let_def








lemma aggregate_no_scores: "ks \<noteq> [] \<Longrightarrow> aggregate rnd m ks [] = Inl ZeroDivisionError"
  by (simp add: aggregate_def average_table_def)



lemma pop_identical_filter:
  "pop_identical qid pids rels
     = (if qid \<in> set pids then filter (\<lambda>kv. fst kv \<noteq> qid) rels else rels)"
  by (induction pids arbitrary: rels) (auto simp: dict_pop_def)

lemma snd_evaluate:
  "snd (evaluate rnd evaluator qr results ks ign)
     = (if ign then remove_identical results else results)"
  by (simp add: evaluate_def Let_def split: sum.splits)

lemma pop_identical_keys:
  "pop_identical qid (keys rels) rels = filter (\<lambda>kv. fst kv \<noteq> qid) rels"
proof (cases "qid \<in> set (keys rels)")
  case True then show ?thesis by (simp add: pop_identical_filter)
next
  case False
  then have "\<forall>kv \<in> set rels. fst kv \<noteq> qid" by (auto simp: keys_def)
  then have "filter (\<lambda>kv. fst kv \<noteq> qid) rels = rels" by (simp add: filter_id_conv)
  with False show ?thesis by (simp add: pop_identical_filter)
qed

lemma remove_identical_filter:
  "remove_identical results
     = map (\<lambda>qrel. (fst qrel, filter (\<lambda>kv. fst kv \<noteq> fst qrel) (snd qrel))) results"
  by (simp add: remove_identical_def pop_identical_keys)




text \<open>
  C4 (with zero queries left after the filtering, \<open>evaluate\<close> fails with an
  \<open>EmptyEvaluationSet\<close> error rather than dividing by zero), as the code has it: there
  is no check of the number of scored queries. When no query is left after the
  filtering and the library returns scores for the cutoffs asked for, all of them for
  queries of the run it was handed, then there is no scored query, the division by
  \<open>len(scores)\<close> is a division by zero, and \<open>evaluate\<close> raises \<open>ZeroDivisionError\<close>.
\<close>

theorem evaluate_empty_set:
  assumes "k_values \<noteq> []"
    and "filtered_results qr (if ign then remove_identical results else results) = []"
    and "evaluator qr k_values
           (filtered_results qr (if ign then remove_identical results else results)) = Inr sc"
    and "set (keys sc)
           \<subseteq> set (keys (filtered_results qr (if ign then remove_identical results else results)))"
  shows "fst (evaluate rnd evaluator qr results k_values ign) = Inl ZeroDivisionError"
proof -
  have "sc = []" using assms(2,4) by (simp add: keys_def)
  then show ?thesis
    using assms(1,3) by (simp add: evaluate_def Let_def aggregate_no_scores)
qed

theorem evaluate_empty_set_witness:
  "[10 :: int] \<noteq> []
   \<and> filtered_results [] (if True then remove_identical example_results else example_results) = []
   \<and> pytrec_stub hits_metric [] [10]
         (filtered_results [] (if True then remove_identical example_results
                               else example_results)) = Inr []
   \<and> set (keys ([] :: scores))
         \<subseteq> set (keys (filtered_results []
                         (if True then remove_identical example_results else example_results)))
   \<and> fst (evaluate round5 (pytrec_stub hits_metric) [] example_results [10] True)
       = Inl ZeroDivisionError"
proof -
  have h1: "[10 :: int] \<noteq> []" by simp
  have h2: "filtered_results [] (if True then remove_identical example_results
                                 else example_results) = []"
    by (simp add: filtered_results_def keys_def dict_of_pairs_def)
  have h3: "pytrec_stub hits_metric [] [10]
         (filtered_results [] (if True then remove_identical example_results
                               else example_results)) = Inr []"
    unfolding h2 by (simp add: pytrec_stub_def)
  have h4: "set (keys ([] :: scores))
         \<subseteq> set (keys (filtered_results []
                         (if True then remove_identical example_results else example_results)))"
    by (simp add: keys_def)
  note c = evaluate_empty_set
    [where evaluator = "pytrec_stub hits_metric" and qr = "[]" and results = example_results
       and ign = True and sc = "[]" and rnd = round5, OF h1 h2 h3 h4]
  show ?thesis by (rule conjI h1 h2 h3 h4 c)+
qed

text \<open>The claim as stated fails on empty inputs with one cutoff: the call ends in the
  division by zero.\<close>

theorem evaluate_empty_set_counterexample:
  "fst (evaluate round5 (pytrec_stub hits_metric) [] [] [10] True) = Inl ZeroDivisionError"
  by (simp add: eval_defs)

text \<open>
  C10 (with \<open>ignore_identical_ids\<close> set, \<open>evaluate\<close> changes the caller's \<open>results\<close>
  in place). When some query's results hold an entry under the query's own id, the
  \<open>results\<close> dictionary after the call differs from the one passed in: it is the one
  passed in with, for every query, the entry under the query's own id removed. This
  holds whether the call returns or raises.
\<close>

theorem evaluate_pops_self_matches:
  assumes "(qid, rels) \<in> set results" and "qid \<in> set (keys rels)"
  shows "snd (evaluate rnd evaluator qr results k_values True) \<noteq> results
       \<and> snd (evaluate rnd evaluator qr results k_values True)
           = map (\<lambda>qrel. (fst qrel, filter (\<lambda>kv. fst kv \<noteq> fst qrel) (snd qrel))) results"
proof -
  have eq: "snd (evaluate rnd evaluator qr results k_values True)
      = map (\<lambda>qrel. (fst qrel, filter (\<lambda>kv. fst kv \<noteq> fst qrel) (snd qrel))) results"
    by (simp add: snd_evaluate remove_identical_filter)
  have "filter (\<lambda>kv. fst kv \<noteq> qid) rels \<noteq> rels"
  proof
    assume "filter (\<lambda>kv. fst kv \<noteq> qid) rels = rels"
    then have "\<forall>kv \<in> set rels. fst kv \<noteq> qid" by (simp add: filter_id_conv)
    with assms(2) show False by (auto simp: keys_def)
  qed
  note ne = this
  let ?f = "\<lambda>qrel :: string \<times> (string, rat) dict.
              (fst qrel, filter (\<lambda>kv. fst kv \<noteq> fst qrel) (snd qrel))"
  have "map ?f results \<noteq> results"
  proof
    assume "map ?f results = results"
    then have "map ?f results = map (\<lambda>x. x) results" by simp
    then have "\<forall>x \<in> set results. ?f x = x" by (simp only: map_eq_conv)
    with assms(1) have "?f (qid, rels) = (qid, rels)" by blast
    with ne show False by simp
  qed
  with eq show ?thesis by simp
qed

theorem evaluate_pops_self_matches_witness:
  "(''q1'', [(''q1'', 1), (''d1'', 9 / 10), (''d2'', 8 / 10)]) \<in> set example_results
   \<and> ''q1'' \<in> set (keys [(''q1'', 1 :: rat), (''d1'', 9 / 10), (''d2'', 8 / 10)])
   \<and> snd (evaluate round5 (pytrec_stub hits_metric) example_qrels example_results [1, 2] True)
       \<noteq> example_results
   \<and> snd (evaluate round5 (pytrec_stub hits_metric) example_qrels example_results [1, 2] True)
       = [(''q1'', [(''d1'', 9 / 10), (''d2'', 8 / 10)]), (''q9'', [(''d1'', 1 / 2)])]"
proof -
  have h1: "(''q1'', [(''q1'', 1), (''d1'', 9 / 10), (''d2'', 8 / 10)]) \<in> set example_results"
    by (simp add: example_results_def)
  have h2: "''q1'' \<in> set (keys [(''q1'', 1 :: rat), (''d1'', 9 / 10), (''d2'', 8 / 10)])"
    by (simp add: keys_def)
  note c = evaluate_pops_self_matches [OF h1 h2, of round5 "pytrec_stub hits_metric"
      example_qrels "[1, 2]"]
  have v: "map (\<lambda>qrel. (fst qrel, filter (\<lambda>kv. fst kv \<noteq> fst qrel) (snd qrel))) example_results
             = [(''q1'', [(''d1'', 9 / 10), (''d2'', 8 / 10)]), (''q9'', [(''d1'', 1 / 2)])]"
    by (simp add: example_results_def)
  have c2: "snd (evaluate round5 (pytrec_stub hits_metric) example_qrels example_results
                   [1, 2] True)
       = [(''q1'', [(''d1'', 9 / 10), (''d2'', 8 / 10)]), (''q9'', [(''d1'', 1 / 2)])]"
    using c v by simp
  show ?thesis by (rule conjI h1 h2 conjunct1 [OF c] c2)+
qed

subsection \<open>The fusion\<close>

lemma set_keep_first: "set (keep_first key seen xs) \<subseteq> set xs"
  by (induction xs arbitrary: seen) auto

lemma keys_keep_first_seen:
  "x \<in> set (keep_first key seen xs) \<Longrightarrow> key x \<notin> set seen"
proof (induction xs arbitrary: seen)
  case Nil then show ?case by simp
next
  case (Cons a xs)
  show ?case
  proof (cases "key a \<in> set seen")
    case True
    with Cons show ?thesis by simp
  next
    case False
    with Cons.prems have "x = a \<or> x \<in> set (keep_first key (key a # seen) xs)" by simp
    then show ?thesis
    proof
      assume "x = a" with False show ?thesis by simp
    next
      assume "x \<in> set (keep_first key (key a # seen) xs)"
      from Cons.IH [OF this] show ?thesis by simp
    qed
  qed
qed

lemma distinct_keep_first: "distinct (map key (keep_first key seen xs))"
proof (induction xs arbitrary: seen)
  case Nil then show ?case by simp
next
  case (Cons x xs)
  have "\<forall>y \<in> set (keep_first key (key x # seen) xs). key y \<noteq> key x"
  proof
    fix y assume "y \<in> set (keep_first key (key x # seen) xs)"
    from keys_keep_first_seen [OF this] show "key y \<noteq> key x" by simp
  qed
  then have "key x \<notin> key ` set (keep_first key (key x # seen) xs)" by auto
  with Cons show ?case by simp
qed

lemma filter_keep_first:
  "filter (\<lambda>x. key x = k) (keep_first key seen xs)
     = (if k \<in> set seen then []
        else (case find (\<lambda>x. key x = k) xs of None \<Rightarrow> [] | Some x \<Rightarrow> [x]))"
proof (induction xs arbitrary: seen)
  case Nil then show ?case by simp
next
  case (Cons x xs)
  show ?case
  proof (cases "key x \<in> set seen")
    case True
    then show ?thesis using Cons [of seen] by auto
  next
    case False
    then show ?thesis using Cons [of "key x # seen"] by auto
  qed
qed

lemma find_append_first:
  "find P xs = Some x \<Longrightarrow> find P (xs @ ys) = Some x"
  by (induction xs) (auto split: if_splits)

lemma find_map_comp: "find P (map f xs) = map_option f (find (\<lambda>x. P (f x)) xs)"
  by (induction xs) auto

lemma find_exists: "x \<in> set xs \<Longrightarrow> P x \<Longrightarrow> \<exists>y. find P xs = Some y"
  by (induction xs) auto

lemma fuse_lexical_first:
  assumes "''doc_id'' \<in> set (columns docs1)"
    and "r1 \<in> set (rows docs1)" and "r1 ''doc_id'' = Some d"
  shows "\<exists>fused lex. fuse docs1 docs = Inr fused
           \<and> find (\<lambda>r. r ''doc_id'' = Some d) (rows docs1) = Some lex
           \<and> filter (\<lambda>r. r ''doc_id'' = Some d) (rows fused) = [row_in docs1 lex]"
proof -
  obtain lex where lex: "find (\<lambda>r. r ''doc_id'' = Some d) (rows docs1) = Some lex"
    using find_exists [OF assms(2), of "\<lambda>r. r ''doc_id'' = Some d"] assms(3) by blast
  have ne: "\<not> is_empty docs1" using assms(1,2) by (auto simp: is_empty_def)
  have col: "''doc_id'' \<in> set (columns (concat_frames docs1 docs))"
    using assms(1) by (simp add: concat_frames_def)
  have same: "\<And>r. row_in docs1 r ''doc_id'' = r ''doc_id''"
    using assms(1) by (simp add: row_in_def)
  have "find (\<lambda>r. r ''doc_id'' = Some d) (map (row_in docs1) (rows docs1))
          = Some (row_in docs1 lex)"
    by (simp add: find_map_comp same lex)
  then have f: "find (\<lambda>r. r ''doc_id'' = Some d) (rows (concat_frames docs1 docs))
          = Some (row_in docs1 lex)"
    by (simp add: concat_frames_def find_append_first)
  have "fuse docs1 docs
          = Inr ((concat_frames docs1 docs)
                  \<lparr>rows := keep_first (\<lambda>r. r ''doc_id'') [] (rows (concat_frames docs1 docs))\<rparr>)"
    using ne col by (simp add: fuse_def drop_duplicates_def)
  moreover have "filter (\<lambda>r. r ''doc_id'' = Some d)
      (keep_first (\<lambda>r. r ''doc_id'') [] (rows (concat_frames docs1 docs))) = [row_in docs1 lex]"
    using filter_keep_first [of "\<lambda>r. r ''doc_id''" "Some d" "[]" "rows (concat_frames docs1 docs)"] f
    by simp
  ultimately show ?thesis using lex by simp
qed

text \<open>When the lexical frame already has its score under \<open>score\<close> and the dense frame
  has it under \<open>_relevance_score\<close>, every row of the concatenation has a missing cell
  in the other frame's score column, and \<open>dropna\<close> leaves no row.\<close>

lemma fused_rows_dropped_example: "finalize lexical_frame tied_frame = Inr []"
  by (simp add: ex_defs frame_defs)

text \<open>
  C3 (a document id returned by both the lexical and the dense stage: exactly one entry
  for it survives, with the lexical score). The code does not do this. The fusion step
  itself keeps the first lexical row of the id and drops the dense one
  (\<open>fuse_lexical_first\<close>), but the lexical frame's score column has been renamed to
  \<open>score\<close> before the concatenation and the dense frame's has not, so every fused row
  has a missing cell and \<open>dropna\<close> removes it. With the lexical stage returning \<open>d1\<close>
  with relevance 9/10 and the dense stage returning \<open>d1\<close> and \<open>d2\<close>, the mapping of the
  query is empty: no entry for \<open>d1\<close> is left.
\<close>

theorem fused_candidate_lost:
  "fst (hybrid_retrieve_rerank
          (stub_services (Some ''revenue, net profit'') (Some lexical_raw_frame) (Some tied_frame))
          task_retrieved 10 None env0)
     = Inr [(''q1'', [])]
   \<and> columns (fst (fts_stage
          (stub_services (Some ''revenue, net profit'') (Some lexical_raw_frame) (Some tied_frame))
          10 ''what'' env0))
       = [''doc_id'', ''score'']
   \<and> map (\<lambda>r. (r ''doc_id'', r ''score''))
         (rows (fst (fts_stage
            (stub_services (Some ''revenue, net profit'') (Some lexical_raw_frame)
               (Some tied_frame))
            10 ''what'' env0)))
       = [(Some (Str ''d1''), Some (Num (9 / 10)))]
   \<and> fst (dense_stage
          (stub_services (Some ''revenue, net profit'') (Some lexical_raw_frame) (Some tied_frame))
          10 ''what''
          (snd (fts_stage
             (stub_services (Some ''revenue, net profit'') (Some lexical_raw_frame)
                (Some tied_frame))
             10 ''what'' env0)))
       = Some tied_frame"
  by (simp add: ex_defs run_defs frame_defs maxsize_def)

subsection \<open>The keyword cache\<close>




subsection \<open>The loop over the queries\<close>

lemma retrieve_loop_subset:
  "ids \<noteq> [] \<Longrightarrow>
   retrieve_loop svc top_k (Some ids) qs res s
     = retrieve_loop svc top_k None (filter (\<lambda>q. fst q \<in> set ids) qs) res s"
proof (induction qs arbitrary: res s)
  case Nil then show ?case by simp
next
  case (Cons q qs)
  obtain q_id query where q: "q = (q_id, query)" by (cases q)
  show ?case using Cons
    by (auto simp: q skipped_def split: prod.splits sum.splits)
qed

lemma retrieve_loop_none_selected:
  "ids \<noteq> [] \<Longrightarrow> set ids \<inter> set (keys qs) = {} \<Longrightarrow>
   retrieve_loop svc top_k (Some ids) qs res s = (Inr res, s)"
  by (induction qs arbitrary: res s) (auto simp: skipped_def keys_def)

lemma call_search_fails:
  assumes "\<forall>qt q w. fst (search svc qt q top_k w) = None"
  shows "fst (call_search svc qt q top_k s) = None"
  using assms [rule_format, of qt q "world s"]
  by (cases "search svc qt q top_k (world s)") (simp add: call_search_def)

lemma process_query_all_fail:
  assumes "\<forall>qt q w. fst (search svc qt q top_k w) = None"
  shows "fst (process_query svc top_k query s) = Inr []"
proof -
  obtain docs1 s1 where f: "fts_stage svc top_k query s = (docs1, s1)"
    by (cases "fts_stage svc top_k query s")
  obtain r2 s2 where h: "call_search svc Hybrid query top_k s1 = (r2, s2)"
    by (cases "call_search svc Hybrid query top_k s1")
  obtain r3 s3 where v: "call_search svc Vector query top_k s2 = (r3, s3)"
    by (cases "call_search svc Vector query top_k s2")
  have "r2 = None" using call_search_fails [OF assms, of Hybrid query s1] h by simp
  moreover have "r3 = None" using call_search_fails [OF assms, of Vector query s2] v by simp
  ultimately show ?thesis by (simp add: process_query_def f dense_stage_def h v)
qed

lemma retrieve_loop_all_fail:
  assumes "\<forall>qt q w. fst (search svc qt q top_k w) = None"
  shows "fst (retrieve_loop svc top_k query_ids qs res s)
           = Inr (foldl (\<lambda>d q. dict_set d (fst q) []) res
                   (filter (\<lambda>q. \<not> skipped query_ids (fst q)) qs))"
proof (induction qs arbitrary: res s)
  case Nil then show ?case by simp
next
  case (Cons q qs)
  obtain q_id query where q: "q = (q_id, query)" by (cases q)
  obtain r s1 where p: "process_query svc top_k query s = (r, s1)"
    by (cases "process_query svc top_k query s")
  have "r = Inr []" using process_query_all_fail [OF assms, of query s] p by simp
  then show ?case using Cons by (simp add: q p)
qed

lemma retrieve_loop_keys:
  "fst (retrieve_loop svc top_k query_ids qs res s) = Inr r \<Longrightarrow>
   set (keys r) \<subseteq> set (keys res) \<union> {q \<in> set (keys qs). \<not> skipped query_ids q}"
proof (induction qs arbitrary: res s)
  case Nil then show ?case by simp
next
  case (Cons q qs)
  obtain q_id query where q: "q = (q_id, query)" by (cases q)
  show ?case
  proof (cases "skipped query_ids q_id")
    case True
    with Cons.prems have "fst (retrieve_loop svc top_k query_ids qs res s) = Inr r"
      by (simp add: q)
    from Cons.IH [OF this] show ?thesis by (auto simp: keys_def)
  next
    case False
    obtain out s1 where p: "process_query svc top_k query s = (out, s1)"
      by (cases "process_query svc top_k query s")
    show ?thesis
    proof (cases out)
      case (Inl e)
      with Cons.prems False p show ?thesis by (simp add: q)
    next
      case (Inr entry)
      with Cons.prems False p
      have "fst (retrieve_loop svc top_k query_ids qs (dict_set res q_id entry) s1) = Inr r"
        by (simp add: q)
      from Cons.IH [OF this] have "set (keys r) \<subseteq> insert q_id (set (keys res))
          \<union> {q \<in> set (keys qs). \<not> skipped query_ids q}"
        by (simp add: keys_dict_set)
      with False show ?thesis by (auto simp: q keys_def)
    qed
  qed
qed

text \<open>
  C6 (a query whose id is absent from the given \<open>query_ids\<close> is skipped: no entry, no
  collaborator call), as the code has it: the test is \<open>query_ids and q_id not in
  query_ids\<close>, so the skipping is done for a subset that is not empty. For such a subset
  the call gives the result and leaves the state (outside world, log of collaborator
  calls, keyword cache) that the call without a subset gives on the task holding only
  the queries of the subset: a skipped query has no entry and causes no call. When no
  loaded query is in the subset the result is the empty dictionary and the state is
  unchanged. Every key of the result is in the subset.
\<close>

theorem query_subset_skips:
  assumes "queries t = Some qs" and "ids \<noteq> []"
  shows "hybrid_retrieve_rerank svc t top_k (Some ids) s
           = hybrid_retrieve_rerank svc
               (t\<lparr>queries := Some (filter (\<lambda>q. fst q \<in> set ids) qs)\<rparr>) top_k None s
       \<and> (set ids \<inter> set (keys qs) = {}
            \<longrightarrow> hybrid_retrieve_rerank svc t top_k (Some ids) s = (Inr [], s))
       \<and> (\<forall>r. fst (hybrid_retrieve_rerank svc t top_k (Some ids) s) = Inr r
            \<longrightarrow> set (keys r) \<subseteq> set ids)"
proof -
  have a: "hybrid_retrieve_rerank svc t top_k (Some ids) s
           = hybrid_retrieve_rerank svc
               (t\<lparr>queries := Some (filter (\<lambda>q. fst q \<in> set ids) qs)\<rparr>) top_k None s"
    using assms by (simp add: hybrid_retrieve_rerank_def retrieve_loop_subset)
  have b: "set ids \<inter> set (keys qs) = {}
            \<longrightarrow> hybrid_retrieve_rerank svc t top_k (Some ids) s = (Inr [], s)"
    using assms by (simp add: hybrid_retrieve_rerank_def retrieve_loop_none_selected)
  have c: "\<forall>r. fst (hybrid_retrieve_rerank svc t top_k (Some ids) s) = Inr r
            \<longrightarrow> set (keys r) \<subseteq> set ids"
  proof (intro allI impI)
    fix r assume "fst (hybrid_retrieve_rerank svc t top_k (Some ids) s) = Inr r"
    then have "fst (retrieve_loop svc top_k (Some ids) qs [] s) = Inr r"
      using assms(1) by (simp add: hybrid_retrieve_rerank_def)
    from retrieve_loop_keys [OF this] show "set (keys r) \<subseteq> set ids"
      using assms(2) by (auto simp: skipped_def keys_def)
  qed
  from a b c show ?thesis by blast
qed

theorem query_subset_skips_witness:
  "queries task_two = Some [(''q1'', ''what''), (''q2'', ''why'')] \<and> [''q2''] \<noteq> ([] :: string list)
   \<and> hybrid_retrieve_rerank (stub_services None None (Some tied_frame)) task_two 10
         (Some [''q2'']) env0
       = hybrid_retrieve_rerank (stub_services None None (Some tied_frame))
           (task_two\<lparr>queries := Some (filter (\<lambda>q. fst q \<in> set [''q2''])
                                          [(''q1'', ''what''), (''q2'', ''why'')])\<rparr>) 10 None env0
   \<and> calls (snd (hybrid_retrieve_rerank (stub_services None None (Some tied_frame)) task_two 10
                   (Some [''q2'']) env0))
       = [Chat ''why'', Search Hybrid ''why'' 10]
   \<and> hybrid_retrieve_rerank (stub_services None None (Some tied_frame)) task_two 10
         (Some [''q7'']) env0 = (Inr [], env0)"
proof -
  let ?svc = "stub_services None None (Some tied_frame)"
  have h1: "queries task_two = Some [(''q1'', ''what''), (''q2'', ''why'')]"
    by (simp add: ex_defs)
  have h2: "[''q2''] \<noteq> ([] :: string list)" by simp
  have h3: "[''q7''] \<noteq> ([] :: string list)" by simp
  note c = conjunct1 [OF query_subset_skips [OF h1 h2, of ?svc 10 env0]]
  have d: "calls (snd (hybrid_retrieve_rerank ?svc task_two 10 (Some [''q2'']) env0))
             = [Chat ''why'', Search Hybrid ''why'' 10]"
    unfolding c by (simp add: ex_defs run_defs frame_defs)
  have e: "hybrid_retrieve_rerank ?svc task_two 10 (Some [''q7'']) env0 = (Inr [], env0)"
    using conjunct1 [OF conjunct2 [OF query_subset_skips [OF h1 h3, of ?svc 10 env0]]]
    by (simp add: keys_def)
  show ?thesis by (rule conjI h1 h2 c d e)+
qed

text \<open>The claim as stated fails for the empty subset, which it names: every query id is
  absent from it, yet the query is processed, its entry produced and the collaborators
  called.\<close>

theorem query_subset_empty_counterexample:
  "fst (hybrid_retrieve_rerank (stub_services None None (Some tied_frame)) task_retrieved 10
         (Some []) env0)
     = Inr [(''q1'', [(Str ''d1'', Num (1 / 2)), (Str ''d2'', Num (1 / 2))])]
   \<and> calls (snd (hybrid_retrieve_rerank (stub_services None None (Some tied_frame))
                   task_retrieved 10 (Some []) env0))
       = [Chat ''what'', Search Hybrid ''what'' 10]"
  by (simp add: ex_defs run_defs frame_defs)

text \<open>
  C7 (a call with \<open>top_k\<close> not positive fails with an \<open>InvalidArgument\<close> error), as the
  code has it: \<open>top_k\<close> is not checked, it is handed to the searches as it is. When the
  index refuses the limit, so that every search raises, each search failure is caught:
  every query that is processed gets the empty dictionary as its entry and the call
  returns normally.
\<close>

theorem nonpositive_top_k_returns:
  assumes "top_k \<le> 0" and "queries t = Some qs"
    and "\<forall>qt q w. fst (search svc qt q top_k w) = None"
  shows "fst (hybrid_retrieve_rerank svc t top_k query_ids s)
           = Inr (foldl (\<lambda>d q. dict_set d (fst q) []) []
                   (filter (\<lambda>q. \<not> skipped query_ids (fst q)) qs))"
  using assms(2) retrieve_loop_all_fail [OF assms(3)]
  by (simp add: hybrid_retrieve_rerank_def)

theorem nonpositive_top_k_returns_witness:
  "(- 5 :: int) \<le> 0 \<and> queries task_two = Some [(''q1'', ''what''), (''q2'', ''why'')]
   \<and> (\<forall>qt q w. fst (search (stub_services None None (Some tied_frame)) qt q (- 5) w) = None)
   \<and> fst (hybrid_retrieve_rerank (stub_services None None (Some tied_frame)) task_two (- 5)
            None env0)
       = Inr [(''q1'', []), (''q2'', [])]"
proof -
  let ?svc = "stub_services None None (Some tied_frame)"
  have h1: "(- 5 :: int) \<le> 0" by simp
  have h2: "queries task_two = Some [(''q1'', ''what''), (''q2'', ''why'')]"
    by (simp add: ex_defs)
  have h3: "\<forall>qt q w. fst (search ?svc qt q (- 5) w) = None"
    by (simp add: stub_services_def)
  have c: "fst (hybrid_retrieve_rerank ?svc task_two (- 5) None env0)
       = Inr [(''q1'', []), (''q2'', [])]"
    using nonpositive_top_k_returns [OF h1 h2 h3, of None env0] by (simp add: skipped_def)
  show ?thesis by (rule conjI h1 h2 h3 c)+
qed

text \<open>The claim as stated fails at \<open>top_k = 0\<close>: the hybrid and the vector search are
  called with the limit 0, both are refused, and the call returns an empty entry for
  the query instead of failing.\<close>

theorem nonpositive_top_k_counterexample:
  "fst (hybrid_retrieve_rerank (stub_services None None (Some tied_frame)) task_retrieved 0
         None env0)
     = Inr [(''q1'', [])]
   \<and> calls (snd (hybrid_retrieve_rerank (stub_services None None (Some tied_frame))
                   task_retrieved 0 None env0))
       = [Chat ''what'', Search Hybrid ''what'' 0, Search Vector ''what'' 0]"
  by (simp add: ex_defs run_defs frame_defs)

subsection \<open>The output of a query\<close>

lemma set_row_pairs:
  "set (row_pairs rs) = {(d, v). \<exists>r \<in> set rs. r ''doc_id'' = Some d \<and> r ''score'' = Some v}"
  by (induction rs) (auto simp: row_pairs_def split: option.splits)

lemma row_pairs_Cons:
  "row_pairs (r # rs)
     = (case (r ''doc_id'', r ''score'') of (Some d, Some sc) \<Rightarrow> [(d, sc)] | _ \<Rightarrow> []) @ row_pairs rs"
  by (simp add: row_pairs_def)

lemma descending_row_pairs:
  "sorted_wrt (\<lambda>a b. b \<le> a) (map (\<lambda>r. r ''score'') rs) \<Longrightarrow> descending (map snd (row_pairs rs))"
proof (induction rs)
  case Nil then show ?case by (simp add: row_pairs_def descending_def)
next
  case (Cons r rs)
  then have ih: "descending (map snd (row_pairs rs))" by simp
  have le: "\<forall>r' \<in> set rs. r' ''score'' \<le> r ''score''" using Cons.prems by simp
  show ?case
  proof (cases "r ''doc_id''")
    case None then show ?thesis using ih by (simp add: row_pairs_Cons)
  next
    case (Some d)
    show ?thesis
    proof (cases "r ''score''")
      case None then show ?thesis using ih Some by (simp add: row_pairs_Cons)
    next
      case sc: (Some v)
      have "\<forall>p \<in> set (row_pairs rs). snd p \<le> v"
      proof
        fix p assume "p \<in> set (row_pairs rs)"
        then obtain r' where "r' \<in> set rs" "r' ''score'' = Some (snd p)"
          by (auto simp: set_row_pairs)
        with le sc show "snd p \<le> v" by (metis less_eq_option_Some)
      qed
      then show ?thesis using ih Some sc
        by (auto simp: row_pairs_Cons descending_def)
    qed
  qed
qed

lemma distinct_row_pairs:
  "distinct (map (\<lambda>r. r ''doc_id'') rs) \<Longrightarrow> distinct (map fst (row_pairs rs))"
proof (induction rs)
  case Nil then show ?case by (simp add: row_pairs_def)
next
  case (Cons r rs)
  then have ih: "distinct (map fst (row_pairs rs))" by simp
  have ne: "\<forall>r' \<in> set rs. r' ''doc_id'' \<noteq> r ''doc_id''"
    using Cons.prems by (force simp: image_iff)
  show ?case
  proof (cases "r ''doc_id''")
    case None then show ?thesis using ih by (simp add: row_pairs_Cons)
  next
    case (Some d)
    show ?thesis
    proof (cases "r ''score''")
      case None then show ?thesis using ih Some by (simp add: row_pairs_Cons)
    next
      case sc: (Some v)
      have "d \<notin> fst ` set (row_pairs rs)"
      proof
        assume "d \<in> fst ` set (row_pairs rs)"
        then obtain r' where "r' \<in> set rs" "r' ''doc_id'' = Some d"
          by (auto simp: set_row_pairs)
        with ne Some show False by auto
      qed
      then show ?thesis using ih Some sc by (simp add: row_pairs_Cons)
    qed
  qed
qed

lemma sorted_rev_desc: "sorted ys \<Longrightarrow> sorted_wrt (\<lambda>a b. b \<le> a) (rev ys)"
  by (simp add: sorted_wrt_rev)

lemma sorted_desc: "sorted_wrt (\<lambda>a b. b \<le> a) (map f (rev (sort_key f (rev xs))))"
proof -
  have "sorted (map f (sort_key f (rev xs)))" by (rule sorted_sort_key)
  then have "sorted_wrt (\<lambda>a b. b \<le> a) (rev (map f (sort_key f (rev xs))))"
    by (rule sorted_rev_desc)
  then show ?thesis by (simp only: rev_map)
qed

lemma distinct_map_sort:
  "distinct (map g (rev (sort_key f (rev xs)))) = distinct (map g xs)"
  by (simp add: distinct_map)

lemma rename_keeps_doc_id:
  assumes "rename_score_column df0 ''score'' = Inr (df, b)"
  shows "doc_ids df = doc_ids df0"
  using assms
  by (auto simp: rename_score_column_def rename_column_def doc_ids_def split: if_splits)

lemma finalize_cases:
  assumes "finalize docs1 docs = Inr m"
  shows "\<exists>fused df b. fuse docs1 docs = Inr fused
           \<and> rename_score_column (dropna fused) ''score'' = Inr (df, b)
           \<and> m = dict_of_pairs (row_pairs (rev (sort_key (\<lambda>r. r ''score'') (rev (rows df)))))"
  using assms
  by (auto simp: finalize_def sort_values_def id_score_pairs_def
      split: sum.splits if_splits)

lemma fuse_distinct:
  assumes "fuse docs1 docs = Inr fused"
    and "\<not> is_empty docs1 \<or> distinct (doc_ids (dropna docs))"
  shows "distinct (doc_ids (dropna fused))"
proof (cases "is_empty docs1")
  case True
  with assms show ?thesis by (simp add: fuse_def)
next
  case False
  with assms(1) have "rows fused = keep_first (\<lambda>r. r ''doc_id'') [] (rows (concat_frames docs1 docs))"
    by (auto simp: fuse_def drop_duplicates_def split: if_splits)
  then have "distinct (map (\<lambda>r. r ''doc_id'') (rows fused))"
    by (simp add: distinct_keep_first)
  then show ?thesis unfolding doc_ids_def dropna_def
    by (simp add: distinct_map_filter)
qed

lemma finalize_ordered:
  assumes "finalize docs1 docs = Inr m"
  shows "distinct (keys m)
       \<and> (\<not> is_empty docs1 \<or> distinct (doc_ids (dropna docs)) \<longrightarrow> descending (map snd m))"
proof -
  obtain fused df b where f: "fuse docs1 docs = Inr fused"
    and r: "rename_score_column (dropna fused) ''score'' = Inr (df, b)"
    and m: "m = dict_of_pairs (row_pairs (rev (sort_key (\<lambda>r. r ''score'') (rev (rows df)))))"
    using finalize_cases [OF assms] by blast
  let ?rs = "rev (sort_key (\<lambda>r. r ''score'') (rev (rows df)))"
  have d: "distinct (keys m)" unfolding m by (rule distinct_dict_of_pairs)
  have "descending (map snd m)" if c: "\<not> is_empty docs1 \<or> distinct (doc_ids (dropna docs))"
  proof -
    have "distinct (doc_ids (dropna fused))" using f c by (rule fuse_distinct)
    then have "distinct (doc_ids df)" using rename_keeps_doc_id [OF r] by simp
    then have "distinct (map (\<lambda>r. r ''doc_id'') ?rs)"
      unfolding doc_ids_def by (simp only: distinct_map_sort)
    then have "distinct (keys (row_pairs ?rs))"
      unfolding keys_def by (rule distinct_row_pairs)
    then have "m = row_pairs ?rs" unfolding m by (rule dict_of_pairs_distinct)
    moreover have "descending (map snd (row_pairs ?rs))"
      by (rule descending_row_pairs) (rule sorted_desc)
    ultimately show ?thesis by simp
  qed
  with d show ?thesis by blast
qed

lemma rename_score_cells:
  assumes "rows df0 \<noteq> []" and "score_column df0 = Some sc"
  shows "\<exists>df b. rename_score_column df0 ''score'' = Inr (df, b)
           \<and> ''score'' \<in> set (columns df)
           \<and> (''doc_id'' \<in> set (columns df0) \<longrightarrow> ''doc_id'' \<in> set (columns df))
           \<and> map (\<lambda>r. (r ''doc_id'', r ''score'')) (rows df)
               = map (\<lambda>r. (r ''doc_id'', r sc)) (rows df0)"
  using assms
  by (auto simp: rename_score_column_def rename_column_def score_column_def split: if_splits)

lemma rename_no_score_column:
  assumes "rows df0 \<noteq> []" and "score_column df0 = None"
  shows "rename_score_column df0 ''score'' = Inl ValueError"
  using assms by (auto simp: rename_score_column_def score_column_def split: if_splits)

lemma score_column_in: "score_column df = Some sc \<Longrightarrow> sc \<in> set (columns df)"
  by (auto simp: score_column_def split: if_splits)

text \<open>
  C2 (the per-query output is ordered by strictly descending score and has no two
  entries with the same document id), as the code has it: the order is descending with
  ties allowed. The mapping stored for a query never has two entries with the same
  document id. It is empty when both dense searches raise. Otherwise its scores are in
  descending order, equal scores allowed, whenever the lexical frame is not empty (the
  fusion then drops duplicate ids) or the rows of the dense frame that have no missing
  cell have distinct document ids.
\<close>

theorem per_query_output_order:
  assumes "fts_stage svc top_k query s = (docs1, s1)"
    and "dense_stage svc top_k query s1 = (dense, s2)"
    and "fst (process_query svc top_k query s) = Inr m"
  shows "distinct (keys m)
       \<and> (case dense of
            None \<Rightarrow> m = []
          | Some docs \<Rightarrow>
              (\<not> is_empty docs1 \<or> distinct (doc_ids (dropna docs))
                 \<longrightarrow> descending (map snd m)))"
proof (cases dense)
  case None
  with assms show ?thesis by (simp add: process_query_def keys_def)
next
  case (Some docs)
  with assms have "finalize docs1 docs = Inr m" by (simp add: process_query_def)
  from finalize_ordered [OF this] Some show ?thesis by simp
qed

theorem per_query_output_order_witness:
  "fts_stage (stub_services None None (Some tied_frame)) 10 ''what'' env0
     = (empty_frame, \<lparr>world = 1, calls = [Chat ''what''], cache = []\<rparr>)
   \<and> dense_stage (stub_services None None (Some tied_frame)) 10 ''what''
         \<lparr>world = 1, calls = [Chat ''what''], cache = []\<rparr>
       = (Some tied_frame,
          \<lparr>world = 2, calls = [Chat ''what'', Search Hybrid ''what'' 10], cache = []\<rparr>)
   \<and> fst (process_query (stub_services None None (Some tied_frame)) 10 ''what'' env0)
       = Inr [(Str ''d1'', Num (1 / 2)), (Str ''d2'', Num (1 / 2))]
   \<and> distinct (doc_ids (dropna tied_frame))
   \<and> distinct (keys [(Str ''d1'', Num (1 / 2)), (Str ''d2'', Num (1 / 2))])
   \<and> descending (map snd [(Str ''d1'', Num (1 / 2)), (Str ''d2'', Num (1 / 2))])"
proof -
  let ?svc = "stub_services None None (Some tied_frame)"
  let ?s1 = "\<lparr>world = 1 :: nat, calls = [Chat ''what''], cache = []\<rparr>"
  let ?s2 = "\<lparr>world = 2 :: nat, calls = [Chat ''what'', Search Hybrid ''what'' 10], cache = []\<rparr>"
  let ?m = "[(Str ''d1'', Num (1 / 2)), (Str ''d2'', Num (1 / 2))]"
  have h1: "fts_stage ?svc 10 ''what'' env0 = (empty_frame, ?s1)"
    by (simp add: ex_defs run_defs)
  have h2: "dense_stage ?svc 10 ''what'' ?s1 = (Some tied_frame, ?s2)"
    by (simp add: ex_defs run_defs)
  have h3: "fst (process_query ?svc 10 ''what'' env0) = Inr ?m"
    by (simp add: ex_defs run_defs frame_defs)
  have h4: "distinct (doc_ids (dropna tied_frame))"
    by (simp add: doc_ids_def dropna_def complete_row_def tied_frame_def)
  note c = per_query_output_order [OF h1 h2 h3]
  have c1: "distinct (keys ?m)" using c by simp
  have c2: "descending (map snd ?m)" using c h4 by simp
  show ?thesis by (rule conjI h1 h2 h3 h4 c1 c2)+
qed

text \<open>The claim as stated fails for two documents of equal score: both are in the
  output, and the order is not strictly descending.\<close>

theorem per_query_output_tie_counterexample:
  "fst (hybrid_retrieve_rerank (stub_services None None (Some tied_frame)) task_retrieved 10
         None env0)
     = Inr [(''q1'', [(Str ''d1'', Num (1 / 2)), (Str ''d2'', Num (1 / 2))])]
   \<and> \<not> strictly_descending (map snd [(Str ''d1'', Num (1 / 2)), (Str ''d2'', Num (1 / 2))])"
  by (simp add: ex_defs run_defs frame_defs strictly_descending_def)

lemma pair_image: "(\<exists>r \<in> S. f r = a \<and> g r = b) \<longleftrightarrow> (a, b) \<in> (\<lambda>r. (f r, g r)) ` S"
  by (auto simp: image_def)

text \<open>
  C5 (a candidate row with no score field is dropped alone and is never fatal), as the
  code has it. \<open>dropna\<close> drops every row that has a missing cell, a missing score among
  them, and keeps every other row. When the fused frame has a document id column and at
  least one row without a missing cell, then: if it has a score column (\<open>score\<close>,
  \<open>_score\<close> or \<open>_relevance_score\<close>) the mapping of the query is produced, its keys are
  exactly the document ids of the rows without a missing cell, and each entry carries
  the score of such a row; if it has none of the three columns, \<open>_rename_score_column\<close>
  raises \<open>ValueError\<close>, which is not caught.
\<close>

theorem malformed_rows:
  assumes "fuse docs1 docs = Inr fused" and "''doc_id'' \<in> set (columns fused)"
    and "filter (complete_row fused) (rows fused) \<noteq> []"
  shows "case score_column fused of
           None \<Rightarrow> finalize docs1 docs = Inl ValueError
         | Some sc \<Rightarrow>
             (\<exists>m. finalize docs1 docs = Inr m
                \<and> set (keys m)
                    = {d. \<exists>r \<in> set (rows fused). complete_row fused r \<and> r ''doc_id'' = Some d}
                \<and> (\<forall>e \<in> set m. \<exists>r \<in> set (rows fused).
                       complete_row fused r \<and> r ''doc_id'' = Some (fst e) \<and> r sc = Some (snd e)))"
proof (cases "score_column fused")
  case None
  then have "score_column (dropna fused) = None"
    by (auto simp: score_column_def dropna_def split: if_splits)
  moreover have "rows (dropna fused) \<noteq> []" using assms(3) by (simp add: dropna_def)
  ultimately have "rename_score_column (dropna fused) ''score'' = Inl ValueError"
    by (intro rename_no_score_column)
  then show ?thesis using None assms(1) by (simp add: finalize_def)
next
  case (Some sc)
  let ?df0 = "dropna fused"
  have sc0: "score_column ?df0 = Some sc"
    using Some by (auto simp: score_column_def dropna_def split: if_splits)
  have ne: "rows ?df0 \<noteq> []" using assms(3) by (simp add: dropna_def)
  have col0: "''doc_id'' \<in> set (columns ?df0)" using assms(2) by (simp add: dropna_def)
  obtain df b where r: "rename_score_column ?df0 ''score'' = Inr (df, b)"
    and c1: "''score'' \<in> set (columns df)" and c2: "''doc_id'' \<in> set (columns df)"
    and cells: "map (\<lambda>r. (r ''doc_id'', r ''score'')) (rows df)
                  = map (\<lambda>r. (r ''doc_id'', r sc)) (rows ?df0)"
    using rename_score_cells [OF ne sc0] col0 by blast
  let ?rs = "rev (sort_key (\<lambda>r. r ''score'') (rev (rows df)))"
  let ?m = "dict_of_pairs (row_pairs ?rs)"
  have fin: "finalize docs1 docs = Inr ?m"
    using assms(1) r c1 c2 by (simp add: finalize_def sort_values_def id_score_pairs_def)
  have img: "(\<lambda>r. (r ''doc_id'', r ''score'')) ` set (rows df)
               = (\<lambda>r. (r ''doc_id'', r sc)) ` set (rows ?df0)"
    using arg_cong [OF cells, of set] by simp
  have pairs: "set (row_pairs ?rs)
      = {(d, v). \<exists>r \<in> set (rows fused). complete_row fused r \<and> r ''doc_id'' = Some d \<and> r sc = Some v}"
  proof -
    have s: "set ?rs = set (rows df)" by simp
    have "set (row_pairs ?rs)
            = {(d, v). (Some d, Some v) \<in> (\<lambda>r. (r ''doc_id'', r ''score'')) ` set (rows df)}"
      unfolding set_row_pairs s by (simp only: pair_image)
    also have "\<dots> = {(d, v). (Some d, Some v) \<in> (\<lambda>r. (r ''doc_id'', r sc)) ` set (rows ?df0)}"
      by (simp only: img)
    also have "\<dots> = {(d, v). \<exists>r \<in> set (rows ?df0). r ''doc_id'' = Some d \<and> r sc = Some v}"
      by (simp only: pair_image)
    also have "\<dots> = {(d, v). \<exists>r \<in> set (rows fused).
                        complete_row fused r \<and> r ''doc_id'' = Some d \<and> r sc = Some v}"
      by (simp add: dropna_def Bex_def conj_assoc)
    finally show ?thesis .
  qed
  have present: "\<And>r. complete_row fused r \<Longrightarrow> \<exists>d v. r ''doc_id'' = Some d \<and> r sc = Some v"
    using assms(2) score_column_in [OF Some] by (auto simp: complete_row_def)
  have k: "set (keys ?m)
             = {d. \<exists>r \<in> set (rows fused). complete_row fused r \<and> r ''doc_id'' = Some d}"
  proof -
    have "set (keys ?m) = fst ` set (row_pairs ?rs)" by (rule keys_dict_of_pairs)
    also have "\<dots> = {d. \<exists>r \<in> set (rows fused). complete_row fused r \<and> r ''doc_id'' = Some d}"
    proof (rule set_eqI, rule iffI)
      fix d assume "d \<in> fst ` set (row_pairs ?rs)"
      then obtain v where "(d, v) \<in> set (row_pairs ?rs)" by auto
      then show "d \<in> {d. \<exists>r \<in> set (rows fused). complete_row fused r \<and> r ''doc_id'' = Some d}"
        unfolding pairs by blast
    next
      fix d assume "d \<in> {d. \<exists>r \<in> set (rows fused). complete_row fused r \<and> r ''doc_id'' = Some d}"
      then obtain r where r: "r \<in> set (rows fused)" "complete_row fused r" "r ''doc_id'' = Some d"
        by blast
      from present [OF r(2)] r(3) obtain v where "r sc = Some v" by auto
      with r have "(d, v) \<in> set (row_pairs ?rs)" unfolding pairs by blast
      then show "d \<in> fst ` set (row_pairs ?rs)" by force
    qed
    finally show ?thesis .
  qed
  have e: "\<forall>e \<in> set ?m. \<exists>r \<in> set (rows fused).
             complete_row fused r \<and> r ''doc_id'' = Some (fst e) \<and> r sc = Some (snd e)"
  proof
    fix e assume "e \<in> set ?m"
    then have "e \<in> set (row_pairs ?rs)" using set_dict_of_pairs by blast
    then have "(fst e, snd e) \<in> set (row_pairs ?rs)" by simp
    then show "\<exists>r \<in> set (rows fused).
             complete_row fused r \<and> r ''doc_id'' = Some (fst e) \<and> r sc = Some (snd e)"
      unfolding pairs by blast
  qed
  show ?thesis using Some fin k e by simp
qed

theorem malformed_rows_witness:
  "fuse empty_frame partial_frame = Inr partial_frame
   \<and> ''doc_id'' \<in> set (columns partial_frame)
   \<and> filter (complete_row partial_frame) (rows partial_frame) \<noteq> []
   \<and> score_column partial_frame = Some ''_relevance_score''
   \<and> (\<exists>m. finalize empty_frame partial_frame = Inr m
         \<and> set (keys m)
             = {d. \<exists>r \<in> set (rows partial_frame).
                     complete_row partial_frame r \<and> r ''doc_id'' = Some d}
         \<and> (\<forall>e \<in> set m. \<exists>r \<in> set (rows partial_frame).
                complete_row partial_frame r \<and> r ''doc_id'' = Some (fst e)
                \<and> r ''_relevance_score'' = Some (snd e)))
   \<and> finalize empty_frame partial_frame = Inr [(Str ''d1'', Num (1 / 2))]"
proof -
  have h1: "fuse empty_frame partial_frame = Inr partial_frame"
    by (simp add: fuse_def is_empty_def empty_frame_def)
  have h2: "''doc_id'' \<in> set (columns partial_frame)" by (simp add: partial_frame_def)
  have h3: "filter (complete_row partial_frame) (rows partial_frame) \<noteq> []"
    by (simp add: partial_frame_def complete_row_def)
  have h4: "score_column partial_frame = Some ''_relevance_score''"
    by (simp add: partial_frame_def score_column_def)
  have c: "\<exists>m. finalize empty_frame partial_frame = Inr m
         \<and> set (keys m)
             = {d. \<exists>r \<in> set (rows partial_frame).
                     complete_row partial_frame r \<and> r ''doc_id'' = Some d}
         \<and> (\<forall>e \<in> set m. \<exists>r \<in> set (rows partial_frame).
                complete_row partial_frame r \<and> r ''doc_id'' = Some (fst e)
                \<and> r ''_relevance_score'' = Some (snd e))"
    using malformed_rows [OF h1 h2 h3] unfolding h4 by simp
  have v: "finalize empty_frame partial_frame = Inr [(Str ''d1'', Num (1 / 2))]"
    by (simp add: ex_defs frame_defs)
  show ?thesis by (rule conjI h1 h2 h3 h4 c v)+
qed

text \<open>When \<open>dropna\<close> leaves no row and no column is named \<open>score\<close> yet, the renaming is
  skipped for the empty frame and the sort by \<open>score\<close> raises \<open>KeyError\<close>.\<close>

lemma no_row_left_example: "finalize empty_frame incomplete_frame = Inl KeyError"
  by (simp add: ex_defs frame_defs)

text \<open>The claim as stated fails for a candidate that has neither score field: the
  call raises \<open>ValueError\<close>, and no result is returned for any query.\<close>

theorem malformed_rows_counterexample:
  "fst (hybrid_retrieve_rerank (stub_services None None (Some unscored_frame)) task_retrieved 10
         None env0)
     = Inl ValueError"
  by (simp add: ex_defs run_defs frame_defs)

end
